theory Spec2Isabelle
  imports Complex_Main "HOL-Library.Word" "HOL-Library.Signed_Division"
begin

section \<open>Machine integers of the AVR target\<close>

text \<open>
  The firmware runs on an ATmega328P: \<open>int\<close> is 16 bits, \<open>long\<close> is 32 bits, both two's
  complement, and \<open>unsigned long\<close> is a 32-bit word. Signed values are modelled as HOL
  integers with the wrap-around written out; \<open>unsigned long\<close> is \<open>32 word\<close>.
\<close>

definition int16 :: "int \<Rightarrow> int" where
  "int16 k = signed_take_bit 15 k"

definition long32 :: "int \<Rightarrow> int" where
  "long32 k = signed_take_bit 31 k"

section \<open>The Arduino core functions the sketches call\<close>

text \<open>
  \<open>map\<close> of the Arduino core (WMath.cpp), in \<open>long\<close> arithmetic with C's truncating
  division:
  \<^verbatim>\<open>return (x - in_min) * (out_max - out_min) / (in_max - in_min) + out_min;\<close>
\<close>

definition map_long :: "int \<Rightarrow> int \<Rightarrow> int \<Rightarrow> int \<Rightarrow> int \<Rightarrow> int" where
  "map_long x in_min in_max out_min out_max =
     long32 (long32 (long32 (long32 (x - in_min) * long32 (out_max - out_min))
                       sdiv long32 (in_max - in_min)) + out_min)"

text \<open>
  \<open>Print::printNumber\<close> in base 10: the digits of an unsigned number, most significant
  first. \<open>Print::print(int)\<close> writes a minus sign before the digits of a negative number,
  and \<open>Print::println(int)\<close> appends carriage return and line feed.
\<close>

definition digit :: "nat \<Rightarrow> char" where
  "digit d = ''0123456789'' ! (d mod 10)"

function printNumber :: "nat \<Rightarrow> string" where
  "printNumber n = (if n < 10 then [digit n] else printNumber (n div 10) @ [digit (n mod 10)])"
  by pat_completeness auto
termination
  by (relation "measure (\<lambda>n. n)") auto

declare printNumber.simps [simp del]

definition print_int :: "int \<Rightarrow> string" where
  "print_int n = (if n < 0 then CHR ''-'' # printNumber (nat (- n)) else printNumber (nat n))"

definition CR :: char where
  "CR = CHR 0x0D"

definition LF :: char where
  "LF = CHR 0x0A"

datatype serial_call = Print_int int | Print_str string | Println_int int

fun written :: "serial_call \<Rightarrow> string" where
  "written (Print_int n) = print_int n"
| "written (Print_str s) = s"
| "written (Println_int n) = print_int n @ [CR, LF]"

definition wire :: "serial_call list \<Rightarrow> string" where
  "wire cs = concat (map written cs)"

fun printed :: "serial_call \<Rightarrow> int option" where
  "printed (Print_int n) = Some n"
| "printed (Print_str s) = None"
| "printed (Println_int n) = Some n"

definition numbers :: "serial_call list \<Rightarrow> int list" where
  "numbers cs = List.map_filter printed cs"

text \<open>The comma-separated fields of a line, as a reader of the serial stream sees them.\<close>

fun split_commas :: "string \<Rightarrow> string list" where
  "split_commas [] = [[]]"
| "split_commas (c # cs) =
     (if c = CHR '','' then [] # split_commas cs
      else (case split_commas cs of f # fs \<Rightarrow> (c # f) # fs | [] \<Rightarrow> [[c]]))"

text \<open>
  A control line of \<open>n\<close> fields: ASCII characters only, the line terminator that
  \<open>println\<close> writes at the end, and before it \<open>n\<close> comma-separated decimal numbers.
\<close>

definition is_digit :: "char \<Rightarrow> bool" where
  "is_digit c = (c \<in> set ''0123456789'')"

fun decimal :: "string \<Rightarrow> bool" where
  "decimal [] = False"
| "decimal (c # cs) =
     (if c = CHR ''-'' then cs \<noteq> [] \<and> list_all is_digit cs else list_all is_digit (c # cs))"

definition ascii :: "char \<Rightarrow> bool" where
  "ascii c = (of_char c < (128 :: nat))"

definition line_fields :: "string \<Rightarrow> string list" where
  "line_fields l = split_commas (take (length l - 2) l)"

definition csv_line :: "nat \<Rightarrow> string \<Rightarrow> bool" where
  "csv_line n l =
     (2 \<le> length l \<and> drop (length l - 2) l = [CR, LF] \<and> list_all ascii l \<and>
      LF \<notin> set (butlast l) \<and> length (line_fields l) = n \<and> list_all decimal (line_fields l))"

text \<open>The values \<open>analogRead\<close> returns: the range of the 10-bit converter.\<close>

definition adc :: "int \<Rightarrow> bool" where
  "adc v = (0 \<le> v \<and> v \<le> 1023)"

section \<open>The joystick firmware (OscilloscopeControl.ino)\<close>

text \<open>
  The globals of the sketch. \<open>HIGH\<close> is \<open>True\<close> and \<open>LOW\<close> is \<open>False\<close>.
\<close>

record joy_state =
  freq :: int
  waveformType :: int
  lastJoyButtonState :: bool
  lastSendTime :: "32 word"

definition sendInterval :: "32 word" where
  "sendInterval = 20"

definition joy_init :: joy_state where
  "joy_init = \<lparr>freq = 100, waveformType = 0, lastJoyButtonState = True, lastSendTime = 0\<rparr>"

text \<open>
  What one pass of \<open>loop\<close> reads from the hardware, in the order of the reads:
  \<open>digitalRead(joyButtonPin)\<close>, the two \<open>analogRead\<close>s of the button branch (used only
  when that branch runs), the \<open>analogRead\<close>s of \<open>joyXPin\<close> and \<open>joyYPin\<close> of lines 41-42
  and \<open>millis()\<close>.
\<close>

record joy_inputs =
  joyButton :: bool
  pressX :: int
  pressY :: int
  joyX :: int
  joyY :: int
  millis :: "32 word"

datatype path = Immediate | Periodic

type_synonym tx = "path \<times> serial_call list"

text \<open>
  One pass of \<open>loop\<close>: the new globals and the transmissions of the pass in the order
  they are written to the serial port. The two \<open>delay\<close> calls only let time pass, which
  the next pass sees in its \<open>millis\<close> reading.
\<close>

definition loop :: "joy_state \<Rightarrow> joy_inputs \<Rightarrow> joy_state \<times> tx list" where
  "loop s i =
    (let joyButtonState = joyButton i;
         pressed = (\<not> joyButtonState \<and> lastJoyButtonState s);
         w = (if pressed then int16 (waveformType s + 1) smod 8 else waveformType s);
         out1 = (if pressed
                 then [(Immediate,
                        [Print_int (freq s), Print_str '','', Print_int (pressX i), Print_str '','',
                         Print_int (pressY i), Print_str '','', Println_int w])]
                 else []);
         xValue = joyX i;
         yValue = joyY i;
         sweepSpeed = int16 (map_long xValue 0 1023 2 100);
         currentTime = millis i;
         send = (currentTime - lastSendTime s \<ge> sendInterval);
         out2 = (if send
                 then [(Periodic,
                        [Print_int (freq s), Print_str '','', Print_int xValue, Print_str '','',
                         Print_int yValue, Print_str '','', Println_int w])]
                 else []);
         t = (if send then currentTime else lastSendTime s);
         f = int16 (freq s + sweepSpeed)
     in (\<lparr>freq = (if f > 2000 then 100 else f), waveformType = w,
          lastJoyButtonState = joyButtonState, lastSendTime = t\<rparr>,
         out1 @ out2))"

text \<open>
  The frequency and the waveform a transmission carries: the first and the last number it
  prints.
\<close>

definition tx_freq :: "tx \<Rightarrow> int" where
  "tx_freq t = hd (numbers (snd t))"

definition tx_waveform :: "tx \<Rightarrow> int" where
  "tx_waveform t = last (numbers (snd t))"


definition immediate_in :: "tx list \<Rightarrow> bool" where
  "immediate_in out = list_ex (\<lambda>t. fst t = Immediate) out"

text \<open>Repeated passes: the globals after them, and what each pass transmitted.\<close>

fun run :: "joy_state \<Rightarrow> joy_inputs list \<Rightarrow> joy_state" where
  "run s [] = s"
| "run s (i # ins) = run (fst (loop s i)) ins"

fun sent :: "joy_state \<Rightarrow> joy_inputs list \<Rightarrow> tx list list" where
  "sent s [] = []"
| "sent s (i # ins) = snd (loop s i) # sent (fst (loop s i)) ins"

section \<open>The potentiometer firmware (the second sketch of the repository)\<close>

record pot_state =
  pot_freq :: int
  pot_waveformType :: int
  lastButtonState :: bool
  pot_lastSendTime :: "32 word"

definition pot_init :: pot_state where
  "pot_init = \<lparr>pot_freq = 100, pot_waveformType = 0, lastButtonState = True,
               pot_lastSendTime = 0\<rparr>"

text \<open>
  The reads of one pass: \<open>digitalRead(buttonPin)\<close>, the \<open>analogRead(potPin)\<close> printed in
  the button branch, the \<open>analogRead(potPin)\<close> of line 34 and \<open>millis()\<close>.
\<close>

record pot_inputs =
  button :: bool
  pressPot :: int
  potValue :: int
  pot_millis :: "32 word"

definition pot_loop :: "pot_state \<Rightarrow> pot_inputs \<Rightarrow> pot_state \<times> tx list" where
  "pot_loop s i =
    (let buttonState = button i;
         pressed = (\<not> buttonState \<and> lastButtonState s);
         w = (if pressed then int16 (pot_waveformType s + 1) smod 8 else pot_waveformType s);
         out1 = (if pressed
                 then [(Immediate,
                        [Print_int (pot_freq s), Print_str '','', Print_int (pressPot i),
                         Print_str '','', Println_int w])]
                 else []);
         sweepSpeed = int16 (map_long (potValue i) 0 1023 2 100);
         currentTime = pot_millis i;
         send = (currentTime - pot_lastSendTime s \<ge> sendInterval);
         out2 = (if send
                 then [(Periodic,
                        [Print_int (pot_freq s), Print_str '','', Print_int (potValue i),
                         Print_str '','', Println_int w])]
                 else []);
         t = (if send then currentTime else pot_lastSendTime s);
         f = int16 (pot_freq s + sweepSpeed)
     in (\<lparr>pot_freq = (if f > 2000 then 100 else f), pot_waveformType = w,
          lastButtonState = buttonState, pot_lastSendTime = t\<rparr>,
         out1 @ out2))"

fun pot_run :: "pot_state \<Rightarrow> pot_inputs list \<Rightarrow> pot_state" where
  "pot_run s [] = s"
| "pot_run s (i # ins) = pot_run (fst (pot_loop s i)) ins"

fun pot_sent :: "pot_state \<Rightarrow> pot_inputs list \<Rightarrow> tx list list" where
  "pot_sent s [] = []"
| "pot_sent s (i # ins) = snd (pot_loop s i) # pot_sent (fst (pot_loop s i)) ins"

section \<open>The control line parser of the host\<close>

text \<open>
  The host program that reads the serial port is not among the sources; this section
  follows the spec's description of the control ingestion protocol.
\<close>

text \<open>
  Modelled from the spec: the parsed control line, the state \<open>{frequency, axisX, axisY,
  waveform}\<close> of the spec's parsing example. The host's parser is missing from the sources.
\<close>

record control =
  frequency :: int
  axisX :: int
  axisY :: int
  waveform :: int

text \<open>
  Modelled from the spec: the value of a decimal digit; the host's number parsing is
  missing from the sources.
\<close>

definition digit_value :: "char \<Rightarrow> nat" where
  "digit_value c = of_char c - 48"

text \<open>
  Modelled from the spec: the value of a string of decimal digits; the host's number
  parsing is missing from the sources.
\<close>

definition parse_nat :: "string \<Rightarrow> nat" where
  "parse_nat ds = foldl (\<lambda>acc c. 10 * acc + digit_value c) 0 ds"

text \<open>
  Modelled from the spec: one field of the line \<open>frequency,axisX,axisY,waveform\<close>, read as
  a decimal integer with an optional minus sign, as the firmware prints it; anything else
  is no number. The host's number parsing is missing from the sources.
\<close>

definition parse_int :: "string \<Rightarrow> int option" where
  "parse_int f =
     (if \<not> decimal f then None
      else if hd f = CHR ''-'' then Some (- int (parse_nat (tl f)))
      else Some (int (parse_nat f)))"

text \<open>
  Modelled from the spec: a complete line without its terminator, the line feed of the
  spec's format with the carriage return that \<open>println\<close> writes before it. The host's
  line reader is missing from the sources.
\<close>

definition line_body :: "string \<Rightarrow> string" where
  "line_body l =
     (let b = butlast l in if b \<noteq> [] \<and> last b = CR then butlast b else b)"

text \<open>
  Modelled from the spec: the host's parser, missing from the sources. A complete line
  \<open>frequency,axisX,axisY,waveform\<close> ended by a line feed gives the four values; any other
  line is malformed and gives nothing.
\<close>

definition parse_line :: "string \<Rightarrow> control option" where
  "parse_line l =
     (if l = [] \<or> last l \<noteq> LF then None
      else (case map parse_int (split_commas (line_body l)) of
              [Some f, Some x, Some y, Some w] \<Rightarrow>
                Some \<lparr>frequency = f, axisX = x, axisY = y, waveform = w\<rparr>
            | _ \<Rightarrow> None))"

text \<open>
  Modelled from the spec: the host's state update, missing from the sources. A malformed
  line is discarded with the state unchanged and is not surfaced as an error; a valid line
  becomes the state.
\<close>

definition apply_line :: "control \<Rightarrow> string \<Rightarrow> control" where
  "apply_line st l = (case parse_line l of None \<Rightarrow> st | Some c \<Rightarrow> c)"

text \<open>
  Modelled from the spec: one polling pass of the host, missing from the sources. All
  queued lines are processed in arrival order, so the last valid line wins.
\<close>

definition poll :: "control \<Rightarrow> string list \<Rightarrow> control" where
  "poll st ls = foldl apply_line st ls"

text \<open>
  A well-formed line: terminated by a line feed, with exactly four comma-separated decimal
  fields before the terminator.
\<close>

definition well_formed :: "string \<Rightarrow> bool" where
  "well_formed l =
     (l \<noteq> [] \<and> last l = LF \<and> length (split_commas (line_body l)) = 4 \<and>
      list_all decimal (split_commas (line_body l)))"

section \<open>The frequency smoother\<close>

text \<open>
  Modelled from the spec: the smoother of the synthesis engine, missing from the sources.
  The spec and the README give the update \<open>current = current*0.95 + target*0.05\<close>. The
  model is over the real numbers; the rounding of the engine's floating-point numbers is
  not part of it.
\<close>

definition smooth :: "real \<Rightarrow> real \<Rightarrow> real" where
  "smooth current target = current * 0.95 + target * 0.05"

text \<open>
  Modelled from the spec: the update applied once per sample, for \<open>n\<close> samples with a
  constant target; the engine's sample loop is missing from the sources.
\<close>

fun smooth_n :: "nat \<Rightarrow> real \<Rightarrow> real \<Rightarrow> real" where
  "smooth_n 0 current target = current"
| "smooth_n (Suc n) current target = smooth_n n (smooth current target) target"

section \<open>The phase accumulator\<close>

text \<open>
  Modelled from the spec: the sample rate of the audio output contract, 44100 Hz; the
  engine's configuration is missing from the sources.
\<close>

definition sampleRate :: real where
  "sampleRate = 44100"

text \<open>
  Modelled from the spec: the wrap of the phase into its canonical domain \<open>[0, period)\<close>;
  the oscillator is missing from the sources. The model is over the real numbers.
\<close>

definition wrap :: "real \<Rightarrow> real \<Rightarrow> real" where
  "wrap period x = x - period * of_int \<lfloor>x / period\<rfloor>"

text \<open>
  Modelled from the spec: one sample of the oscillator, missing from the sources. The
  phase advances by \<open>frequency/sampleRate\<close> and is wrapped into \<open>[0,1)\<close> every sample.
\<close>

definition advance :: "real \<Rightarrow> real \<Rightarrow> real" where
  "advance f p = wrap 1 (p + f / sampleRate)"

text \<open>
  Modelled from the spec: the same sample for a phase kept in radians, with the canonical
  domain \<open>[0,2\<pi>)\<close> the spec names for trigonometric waveforms; the oscillator is missing
  from the sources.
\<close>

definition advance_radians :: "real \<Rightarrow> real \<Rightarrow> real" where
  "advance_radians f p = wrap (2 * pi) (p + 2 * pi * f / sampleRate)"

text \<open>
  Modelled from the spec: the phase after \<open>n\<close> samples at a constant frequency, in cycles
  and in radians; the oscillator's sample loop is missing from the sources.
\<close>

fun phase_after :: "nat \<Rightarrow> real \<Rightarrow> real \<Rightarrow> real" where
  "phase_after 0 f p = p"
| "phase_after (Suc n) f p = phase_after n f (advance f p)"

text \<open>
  Modelled from the spec: as \<open>phase_after\<close>, for the phase in radians; the oscillator's
  sample loop is missing from the sources.
\<close>

fun radians_after :: "nat \<Rightarrow> real \<Rightarrow> real \<Rightarrow> real" where
  "radians_after 0 f p = p"
| "radians_after (Suc n) f p = radians_after n f (advance_radians f p)"

section \<open>Sample inputs\<close>

definition joy_press :: joy_inputs where
  "joy_press = \<lparr>joyButton = False, pressX = 512, pressY = 300, joyX = 512, joyY = 300,
                 millis = 1000\<rparr>"

definition pot_press :: pot_inputs where
  "pot_press = \<lparr>button = False, pressPot = 512, potValue = 512, pot_millis = 1000\<rparr>"

definition joy_idle :: joy_inputs where
  "joy_idle = \<lparr>joyButton = True, pressX = 0, pressY = 0, joyX = 1023, joyY = 300,
                millis = 1025\<rparr>"

definition pot_idle :: pot_inputs where
  "pot_idle = \<lparr>button = True, pressPot = 0, potValue = 1023, pot_millis = 1025\<rparr>"

section \<open>Machine arithmetic within range\<close>

lemma int16_id: "- 32768 \<le> k \<Longrightarrow> k < 32768 \<Longrightarrow> int16 k = k"
  by (simp add: int16_def signed_take_bit_int_eq_self)

lemma long32_id: "- 2147483648 \<le> k \<Longrightarrow> k < 2147483648 \<Longrightarrow> long32 k = k"
  by (simp add: long32_def signed_take_bit_int_eq_self)

lemma sdiv_nonneg: "0 \<le> k \<Longrightarrow> 0 < l \<Longrightarrow> k sdiv l = k div (l::int)"
  by (simp add: signed_divide_int_def sgn_if)

lemma smod_nonneg: "0 \<le> k \<Longrightarrow> 0 < l \<Longrightarrow> k smod l = k mod (l::int)"
  by (simp add: signed_modulo_int_def sgn_if)

lemma map_long_adc:
  assumes "0 \<le> x" "x \<le> 1023"
  shows "map_long x 0 1023 2 100 = x * 98 div 1023 + 2"
proof -
  have a: "long32 (x - 0) = x" using assms by (simp add: long32_id)
  have b: "long32 (100 - 2) = 98" "long32 (1023 - 0) = 1023" by (simp_all add: long32_id)
  have c: "long32 (x * 98) = x * 98" using assms by (simp add: long32_id)
  have d: "x * 98 sdiv 1023 = x * 98 div 1023" using assms by (simp add: sdiv_nonneg)
  have e: "0 \<le> x * 98 div 1023" "x * 98 div 1023 \<le> 98" using assms by simp_all
  have f: "long32 (x * 98 div 1023) = x * 98 div 1023" using e by (simp add: long32_id)
  have g: "long32 (x * 98 div 1023 + 2) = x * 98 div 1023 + 2" using e by (simp add: long32_id)
  show ?thesis unfolding map_long_def a b c d f g ..
qed

lemma map_long_adc_bounds:
  assumes "0 \<le> x" "x \<le> 1023"
  shows "2 \<le> map_long x 0 1023 2 100" "map_long x 0 1023 2 100 \<le> 100"
  using assms by (simp_all add: map_long_adc)

lemma map_long_adc_mono:
  assumes "0 \<le> x" "x \<le> y" "y \<le> 1023"
  shows "map_long x 0 1023 2 100 \<le> map_long y 0 1023 2 100"
proof -
  have "x * 98 div 1023 \<le> y * 98 div 1023" using assms by (intro zdiv_mono1) simp_all
  then show ?thesis using assms by (simp add: map_long_adc)
qed

lemma sweepSpeed_adc:
  assumes "0 \<le> x" "x \<le> 1023"
  shows "int16 (map_long x 0 1023 2 100) = map_long x 0 1023 2 100"
  using map_long_adc_bounds [OF assms] by (simp add: int16_id)


section \<open>What the print functions write\<close>

lemma digit_is_digit: "is_digit (digit d)"
proof -
  have "d mod 10 < 10" by simp
  then have "d mod 10 = 0 \<or> d mod 10 = 1 \<or> d mod 10 = 2 \<or> d mod 10 = 3 \<or> d mod 10 = 4 \<or>
             d mod 10 = 5 \<or> d mod 10 = 6 \<or> d mod 10 = 7 \<or> d mod 10 = 8 \<or> d mod 10 = 9"
    by arith
  then show ?thesis unfolding digit_def is_digit_def by auto
qed

lemma printNumber_digits: "list_all is_digit (printNumber n) \<and> printNumber n \<noteq> []"
proof (induction n rule: printNumber.induct)
  case (1 n)
  show ?case
  proof (cases "n < 10")
    case True
    then show ?thesis by (simp add: printNumber.simps [of n] digit_is_digit)
  next
    case False
    with 1 show ?thesis by (simp add: printNumber.simps [of n] digit_is_digit)
  qed
qed

lemma is_digit_not_minus: "is_digit c \<Longrightarrow> c \<noteq> CHR ''-''"
  by (auto simp: is_digit_def)

lemma is_digit_not_comma: "is_digit c \<Longrightarrow> c \<noteq> CHR '',''"
  by (auto simp: is_digit_def)

lemma is_digit_ascii: "is_digit c \<Longrightarrow> ascii c"
  by (auto simp: is_digit_def ascii_def)

lemma is_digit_not_LF: "is_digit c \<Longrightarrow> c \<noteq> LF"
  by (auto simp: is_digit_def LF_def)

lemma decimal_digits: "list_all is_digit cs \<Longrightarrow> cs \<noteq> [] \<Longrightarrow> decimal cs"
  by (cases cs) (auto simp: is_digit_not_minus)

lemma decimal_print_int: "decimal (print_int n)"
  using printNumber_digits [of "nat n"] printNumber_digits [of "nat (- n)"]
  by (simp add: print_int_def decimal_digits)

lemma decimal_chars: "decimal cs \<Longrightarrow> c \<in> set cs \<Longrightarrow> c = CHR ''-'' \<or> is_digit c"
  by (cases cs) (auto simp: list_all_iff split: if_splits)

lemma print_int_chars: "c \<in> set (print_int n) \<Longrightarrow> c = CHR ''-'' \<or> is_digit c"
  using decimal_chars [OF decimal_print_int] by blast

lemma print_int_no_comma: "CHR '','' \<notin> set (print_int n)"
  using print_int_chars [of "CHR '',''" n] by (auto simp: is_digit_def)

lemma print_int_no_LF: "LF \<notin> set (print_int n)"
  using print_int_chars [of LF n] by (auto simp: is_digit_def LF_def)

lemma minus_ascii: "ascii (CHR ''-'')"
  by (simp add: ascii_def)

lemma print_int_ascii: "list_all ascii (print_int n)"
  unfolding list_all_iff using print_int_chars [of _ n] is_digit_ascii minus_ascii by blast

lemma split_commas_nonempty: "split_commas cs \<noteq> []"
  by (induction cs) (auto split: list.splits)

lemma split_commas_plain: "CHR '','' \<notin> set a \<Longrightarrow> split_commas a = [a]"
  by (induction a) auto

lemma split_commas_append:
  "CHR '','' \<notin> set a \<Longrightarrow> split_commas (a @ CHR '','' # b) = a # split_commas b"
  by (induction a) auto

lemma csv_lineI:
  assumes "l = body @ [CR, LF]" "list_all ascii body" "LF \<notin> set body"
    "split_commas body = fs" "length fs = n" "list_all decimal fs"
  shows "csv_line n l"
proof -
  have "ascii CR" "ascii LF" "CR \<noteq> LF" by (simp_all add: ascii_def CR_def LF_def)
  then show ?thesis using assms by (simp add: csv_line_def line_fields_def butlast_append)
qed

lemma comma_facts: "ascii (CHR '','')" "CHR '','' \<noteq> LF" "LF \<noteq> CHR '',''"
  by (simp_all add: ascii_def LF_def)

lemma wire4:
  "wire [Print_int f, Print_str '','', Print_int x, Print_str '','', Print_int y, Print_str '','',
         Println_int w]
   = (print_int f @ CHR '','' # print_int x @ CHR '','' # print_int y @ CHR '','' # print_int w)
     @ [CR, LF]"
  by (simp add: wire_def)

lemma wire3:
  "wire [Print_int f, Print_str '','', Print_int x, Print_str '','', Println_int w]
   = (print_int f @ CHR '','' # print_int x @ CHR '','' # print_int w) @ [CR, LF]"
  by (simp add: wire_def)

lemma split4:
  "split_commas (print_int f @ CHR '','' # print_int x @ CHR '','' # print_int y @ CHR '','' #
                 print_int w)
   = [print_int f, print_int x, print_int y, print_int w]"
  by (simp add: split_commas_append split_commas_plain print_int_no_comma)

lemma split3:
  "split_commas (print_int f @ CHR '','' # print_int x @ CHR '','' # print_int w)
   = [print_int f, print_int x, print_int w]"
  by (simp add: split_commas_append split_commas_plain print_int_no_comma)

lemma csv_line4:
  "csv_line 4 (wire [Print_int f, Print_str '','', Print_int x, Print_str '','', Print_int y,
                     Print_str '','', Println_int w])"
  by (rule csv_lineI [OF wire4 _ _ split4])
     (simp_all add: print_int_ascii print_int_no_LF comma_facts decimal_print_int)

lemma csv_line3:
  "csv_line 3 (wire [Print_int f, Print_str '','', Print_int x, Print_str '','', Println_int w])"
  by (rule csv_lineI [OF wire3 _ _ split3])
     (simp_all add: print_int_ascii print_int_no_LF comma_facts decimal_print_int)

lemma loop_lines: "t \<in> set (snd (loop s i)) \<Longrightarrow> csv_line 4 (wire (snd t))"
  by (auto simp: loop_def Let_def csv_line4 split: if_splits)

lemma pot_loop_lines: "t \<in> set (snd (pot_loop s i)) \<Longrightarrow> csv_line 3 (wire (snd t))"
  by (auto simp: pot_loop_def Let_def csv_line3 split: if_splits)

section \<open>One pass and many passes of the joystick firmware\<close>

lemma numbers4 [simp]:
  "numbers [Print_int f, Print_str a, Print_int x, Print_str b, Print_int y, Print_str c,
            Println_int w] = [f, x, y, w]"
  by (simp add: numbers_def map_filter_simps)

lemma numbers3 [simp]:
  "numbers [Print_int f, Print_str a, Print_int x, Print_str b, Println_int w] = [f, x, w]"
  by (simp add: numbers_def map_filter_simps)

lemma wave_step: "0 \<le> w \<Longrightarrow> w \<le> 7 \<Longrightarrow> int16 (w + 1) smod 8 = (w + 1) mod 8"
  by (simp add: int16_id smod_nonneg)

lemma freq_step:
  assumes "0 \<le> x" "x \<le> 1023" "100 \<le> f" "f \<le> 2000"
  shows "int16 (f + int16 (map_long x 0 1023 2 100)) = f + map_long x 0 1023 2 100"
  using map_long_adc_bounds [OF assms(1,2)] assms(3,4)
  by (simp add: sweepSpeed_adc [OF assms(1,2)] int16_id)


lemma loop_freq:
  assumes "0 \<le> joyX i" "joyX i \<le> 1023" "100 \<le> freq s" "freq s \<le> 2000"
  shows "freq (fst (loop s i)) =
           (if freq s + map_long (joyX i) 0 1023 2 100 > 2000 then 100
            else freq s + map_long (joyX i) 0 1023 2 100)"
  by (simp add: loop_def Let_def freq_step [OF assms])

lemma loop_freq_inv:
  assumes "0 \<le> joyX i" "joyX i \<le> 1023" "100 \<le> freq s" "freq s \<le> 2000"
  shows "100 \<le> freq (fst (loop s i)) \<and> freq (fst (loop s i)) \<le> 2000"
  using map_long_adc_bounds [OF assms(1,2)] assms(3,4) by (simp add: loop_freq [OF assms])

lemma loop_wave:
  "waveformType (fst (loop s i)) =
     (if \<not> joyButton i \<and> lastJoyButtonState s then int16 (waveformType s + 1) smod 8
      else waveformType s)"
  by (simp add: loop_def Let_def)

lemma loop_wave_inv:
  assumes "0 \<le> waveformType s" "waveformType s \<le> 7"
  shows "0 \<le> waveformType (fst (loop s i)) \<and> waveformType (fst (loop s i)) \<le> 7"
proof -
  have "0 \<le> (waveformType s + 1) mod 8" "(waveformType s + 1) mod 8 \<le> 7"
    using pos_mod_bound [of 8 "waveformType s + 1"] by simp_all
  then show ?thesis using assms by (simp add: loop_wave wave_step)
qed

lemma loop_tx_freq: "t \<in> set (snd (loop s i)) \<Longrightarrow> tx_freq t = freq s"
  by (auto simp: loop_def Let_def tx_freq_def split: if_splits)

lemma loop_tx_waveform:
  "t \<in> set (snd (loop s i)) \<Longrightarrow> tx_waveform t = waveformType (fst (loop s i))"
  by (auto simp: loop_def Let_def tx_waveform_def split: if_splits)

lemma run_freq_inv:
  assumes "\<forall>i \<in> set ins. 0 \<le> joyX i \<and> joyX i \<le> 1023" "100 \<le> freq s" "freq s \<le> 2000"
  shows "100 \<le> freq (run s ins) \<and> freq (run s ins) \<le> 2000"
  using assms
proof (induction ins arbitrary: s)
  case Nil
  then show ?case by simp
next
  case (Cons i ins)
  have "100 \<le> freq (fst (loop s i)) \<and> freq (fst (loop s i)) \<le> 2000"
    using Cons.prems by (intro loop_freq_inv) simp_all
  then show ?case using Cons.IH [of "fst (loop s i)"] Cons.prems(1) by simp
qed

lemma sent_freq:
  assumes "\<forall>i \<in> set ins. 0 \<le> joyX i \<and> joyX i \<le> 1023" "100 \<le> freq s" "freq s \<le> 2000"
    "out \<in> set (sent s ins)" "t \<in> set out"
  shows "100 \<le> tx_freq t \<and> tx_freq t \<le> 2000"
  using assms
proof (induction ins arbitrary: s)
  case Nil
  then show ?case by simp
next
  case (Cons i ins)
  have inv: "100 \<le> freq (fst (loop s i)) \<and> freq (fst (loop s i)) \<le> 2000"
    using Cons.prems by (intro loop_freq_inv) simp_all
  from Cons.prems(4) consider "out = snd (loop s i)" | "out \<in> set (sent (fst (loop s i)) ins)"
    by auto
  then show ?case
  proof cases
    case 1
    then show ?thesis using Cons.prems(2,3,5) by (simp add: loop_tx_freq)
  next
    case 2
    then show ?thesis using Cons.IH [of "fst (loop s i)"] Cons.prems(1,5) inv by simp
  qed
qed

lemma run_wave_inv:
  assumes "0 \<le> waveformType s" "waveformType s \<le> 7"
  shows "0 \<le> waveformType (run s ins) \<and> waveformType (run s ins) \<le> 7"
  using assms
proof (induction ins arbitrary: s)
  case Nil
  then show ?case by simp
next
  case (Cons i ins)
  then show ?case using loop_wave_inv [of s i] by simp
qed

lemma sent_wave:
  assumes "0 \<le> waveformType s" "waveformType s \<le> 7" "out \<in> set (sent s ins)" "t \<in> set out"
  shows "0 \<le> tx_waveform t \<and> tx_waveform t \<le> 7"
  using assms
proof (induction ins arbitrary: s)
  case Nil
  then show ?case by simp
next
  case (Cons i ins)
  have inv: "0 \<le> waveformType (fst (loop s i)) \<and> waveformType (fst (loop s i)) \<le> 7"
    using Cons.prems by (intro loop_wave_inv) simp_all
  from Cons.prems(3) consider "out = snd (loop s i)" | "out \<in> set (sent (fst (loop s i)) ins)"
    by auto
  then show ?case
  proof cases
    case 1
    then show ?thesis using Cons.prems(4) inv by (simp add: loop_tx_waveform)
  next
    case 2
    then show ?thesis using Cons.IH [of "fst (loop s i)"] Cons.prems(4) inv by simp
  qed
qed






section \<open>One pass and many passes of the potentiometer firmware\<close>

lemma pot_loop_freq:
  assumes "0 \<le> potValue i" "potValue i \<le> 1023" "100 \<le> pot_freq s" "pot_freq s \<le> 2000"
  shows "pot_freq (fst (pot_loop s i)) =
           (if pot_freq s + map_long (potValue i) 0 1023 2 100 > 2000 then 100
            else pot_freq s + map_long (potValue i) 0 1023 2 100)"
  by (simp add: pot_loop_def Let_def freq_step [OF assms])

lemma pot_loop_freq_inv:
  assumes "0 \<le> potValue i" "potValue i \<le> 1023" "100 \<le> pot_freq s" "pot_freq s \<le> 2000"
  shows "100 \<le> pot_freq (fst (pot_loop s i)) \<and> pot_freq (fst (pot_loop s i)) \<le> 2000"
  using map_long_adc_bounds [OF assms(1,2)] assms(3,4) by (simp add: pot_loop_freq [OF assms])

lemma pot_loop_wave:
  "pot_waveformType (fst (pot_loop s i)) =
     (if \<not> button i \<and> lastButtonState s then int16 (pot_waveformType s + 1) smod 8
      else pot_waveformType s)"
  by (simp add: pot_loop_def Let_def)

lemma pot_loop_wave_inv:
  assumes "0 \<le> pot_waveformType s" "pot_waveformType s \<le> 7"
  shows "0 \<le> pot_waveformType (fst (pot_loop s i)) \<and> pot_waveformType (fst (pot_loop s i)) \<le> 7"
proof -
  have "0 \<le> (pot_waveformType s + 1) mod 8" "(pot_waveformType s + 1) mod 8 \<le> 7"
    using pos_mod_bound [of 8 "pot_waveformType s + 1"] by simp_all
  then show ?thesis using assms by (simp add: pot_loop_wave wave_step)
qed

lemma pot_loop_tx_freq: "t \<in> set (snd (pot_loop s i)) \<Longrightarrow> tx_freq t = pot_freq s"
  by (auto simp: pot_loop_def Let_def tx_freq_def split: if_splits)

lemma pot_loop_tx_waveform:
  "t \<in> set (snd (pot_loop s i)) \<Longrightarrow> tx_waveform t = pot_waveformType (fst (pot_loop s i))"
  by (auto simp: pot_loop_def Let_def tx_waveform_def split: if_splits)

lemma pot_run_freq_inv:
  assumes "\<forall>i \<in> set ins. 0 \<le> potValue i \<and> potValue i \<le> 1023" "100 \<le> pot_freq s" "pot_freq s \<le> 2000"
  shows "100 \<le> pot_freq (pot_run s ins) \<and> pot_freq (pot_run s ins) \<le> 2000"
  using assms
proof (induction ins arbitrary: s)
  case Nil
  then show ?case by simp
next
  case (Cons i ins)
  have "100 \<le> pot_freq (fst (pot_loop s i)) \<and> pot_freq (fst (pot_loop s i)) \<le> 2000"
    using Cons.prems by (intro pot_loop_freq_inv) simp_all
  then show ?case using Cons.IH [of "fst (pot_loop s i)"] Cons.prems(1) by simp
qed

lemma pot_sent_freq:
  assumes "\<forall>i \<in> set ins. 0 \<le> potValue i \<and> potValue i \<le> 1023" "100 \<le> pot_freq s" "pot_freq s \<le> 2000"
    "out \<in> set (pot_sent s ins)" "t \<in> set out"
  shows "100 \<le> tx_freq t \<and> tx_freq t \<le> 2000"
  using assms
proof (induction ins arbitrary: s)
  case Nil
  then show ?case by simp
next
  case (Cons i ins)
  have inv: "100 \<le> pot_freq (fst (pot_loop s i)) \<and> pot_freq (fst (pot_loop s i)) \<le> 2000"
    using Cons.prems by (intro pot_loop_freq_inv) simp_all
  from Cons.prems(4) consider "out = snd (pot_loop s i)" | "out \<in> set (pot_sent (fst (pot_loop s i)) ins)"
    by auto
  then show ?case
  proof cases
    case 1
    then show ?thesis using Cons.prems(2,3,5) by (simp add: pot_loop_tx_freq)
  next
    case 2
    then show ?thesis using Cons.IH [of "fst (pot_loop s i)"] Cons.prems(1,5) inv by simp
  qed
qed

lemma pot_run_wave_inv:
  assumes "0 \<le> pot_waveformType s" "pot_waveformType s \<le> 7"
  shows "0 \<le> pot_waveformType (pot_run s ins) \<and> pot_waveformType (pot_run s ins) \<le> 7"
  using assms
proof (induction ins arbitrary: s)
  case Nil
  then show ?case by simp
next
  case (Cons i ins)
  then show ?case using pot_loop_wave_inv [of s i] by simp
qed

lemma pot_sent_wave:
  assumes "0 \<le> pot_waveformType s" "pot_waveformType s \<le> 7" "out \<in> set (pot_sent s ins)" "t \<in> set out"
  shows "0 \<le> tx_waveform t \<and> tx_waveform t \<le> 7"
  using assms
proof (induction ins arbitrary: s)
  case Nil
  then show ?case by simp
next
  case (Cons i ins)
  have inv: "0 \<le> pot_waveformType (fst (pot_loop s i)) \<and> pot_waveformType (fst (pot_loop s i)) \<le> 7"
    using Cons.prems by (intro pot_loop_wave_inv) simp_all
  from Cons.prems(3) consider "out = snd (pot_loop s i)" | "out \<in> set (pot_sent (fst (pot_loop s i)) ins)"
    by auto
  then show ?case
  proof cases
    case 1
    then show ?thesis using Cons.prems(4) inv by (simp add: pot_loop_tx_waveform)
  next
    case 2
    then show ?thesis using Cons.IH [of "fst (pot_loop s i)"] Cons.prems(4) inv by simp
  qed
qed






section \<open>The parser, the smoother and the phase accumulator\<close>

lemma parse_int_Some: "parse_int f = Some n \<Longrightarrow> decimal f"
  by (simp add: parse_int_def split: if_splits)

lemma parse_int_decimal: "decimal f \<Longrightarrow> \<exists>n. parse_int f = Some n"
  by (simp add: parse_int_def)

lemma four_fields:
  assumes "(case map parse_int fs of
              [Some f, Some x, Some y, Some w] \<Rightarrow>
                Some \<lparr>frequency = f, axisX = x, axisY = y, waveform = w\<rparr>
            | _ \<Rightarrow> None) = Some c"
  shows "length fs = 4 \<and> list_all decimal fs"
proof -
  from assms obtain f x y w where m: "map parse_int fs = [Some f, Some x, Some y, Some w]"
    by (auto split: list.splits option.splits)
  then have len: "length fs = 4" using length_map [of parse_int fs] by simp
  then obtain a b c d where fs: "fs = [a, b, c, d]"
    by (cases fs; simp; rename_tac bs, case_tac bs; simp; rename_tac cs, case_tac cs; simp;
        rename_tac ds, case_tac ds; simp)
  with m show ?thesis by (simp add: parse_int_Some)
qed

lemma parse_line_Some: "parse_line l = Some c \<Longrightarrow> well_formed l"
  unfolding parse_line_def well_formed_def
  by (cases "l = [] \<or> last l \<noteq> LF") (simp_all add: four_fields)

lemma well_formed_parses: "well_formed l \<Longrightarrow> \<exists>c. parse_line l = Some c"
proof -
  assume w: "well_formed l"
  then have len: "length (split_commas (line_body l)) = 4"
    and dec: "list_all decimal (split_commas (line_body l))"
    by (simp_all add: well_formed_def)
  from len obtain a b c d where fs: "split_commas (line_body l) = [a, b, c, d]"
    by (cases "split_commas (line_body l)"; simp; rename_tac bs, case_tac bs; simp;
        rename_tac cs, case_tac cs; simp; rename_tac ds, case_tac ds; simp)
  from dec fs have "decimal a" "decimal b" "decimal c" "decimal d" by simp_all
  then obtain f x y v where
    "parse_int a = Some f" "parse_int b = Some x" "parse_int c = Some y" "parse_int d = Some v"
    using parse_int_decimal [of a] parse_int_decimal [of b] parse_int_decimal [of c]
      parse_int_decimal [of d] by auto
  then show ?thesis using w fs by (simp add: parse_line_def well_formed_def)
qed

lemma malformed_ignored: "\<not> well_formed l \<Longrightarrow> apply_line st l = st"
  using parse_line_Some [of l] by (cases "parse_line l") (simp_all add: apply_line_def)

lemma poll_malformed: "\<forall>l\<in>set ls. \<not> well_formed l \<Longrightarrow> poll st ls = st"
  unfolding poll_def by (induction ls arbitrary: st) (simp_all add: malformed_ignored)

lemma smooth_n_closed: "smooth_n n c t = t - (t - c) * 0.95 ^ n"
proof (induction n arbitrary: c)
  case 0
  then show ?case by simp
next
  case (Suc n)
  have "t - smooth c t = (t - c) * 0.95" by (simp add: smooth_def algebra_simps)
  then show ?case using Suc [of "smooth c t"] by simp
qed

lemma pow_bounds: "(0.358 :: real) < 0.95 ^ 20" "(0.95 :: real) ^ 20 < 0.359"
  by (simp_all add: power_divide)

lemma wrap_range:
  assumes "0 < period"
  shows "0 \<le> wrap period x \<and> wrap period x < period"
proof -
  have "wrap period x = period * frac (x / period)"
    using assms by (simp add: wrap_def frac_def algebra_simps)
  moreover have "0 \<le> frac (x / period)" "frac (x / period) < 1"
    by (simp_all add: frac_lt_1)
  ultimately show ?thesis using assms by simp
qed

lemma phase_after_range:
  "0 \<le> p \<Longrightarrow> p < 1 \<Longrightarrow> 0 \<le> phase_after n f p \<and> phase_after n f p < 1"
proof (induction n arbitrary: p)
  case 0
  then show ?case by simp
next
  case (Suc n)
  have "0 \<le> advance f p \<and> advance f p < 1"
    unfolding advance_def using wrap_range [of 1] by simp
  then show ?case using Suc.IH by simp
qed

lemma radians_after_range:
  "0 \<le> p \<Longrightarrow> p < 2 * pi \<Longrightarrow> 0 \<le> radians_after n f p \<and> radians_after n f p < 2 * pi"
proof (induction n arbitrary: p)
  case 0
  then show ?case by simp
next
  case (Suc n)
  have "0 \<le> advance_radians f p \<and> advance_radians f p < 2 * pi"
    unfolding advance_radians_def using wrap_range [of "2 * pi"] by simp
  then show ?case using Suc.IH by simp
qed

section \<open>The claims\<close>

lemma line_fields_wire:
  "line_fields (body @ [CR, LF]) = split_commas body"
  by (simp add: line_fields_def)

lemma line_fields4:
  "line_fields (wire [Print_int f, Print_str '','', Print_int x, Print_str '','', Print_int y,
                      Print_str '','', Println_int w])
   = [print_int f, print_int x, print_int y, print_int w]"
  unfolding wire4 line_fields_wire by (rule split4)

lemma line_fields3:
  "line_fields (wire [Print_int f, Print_str '','', Print_int x, Print_str '','', Println_int w])
   = [print_int f, print_int x, print_int w]"
  unfolding wire3 line_fields_wire by (rule split3)

lemma loop_line_numbers:
  "t \<in> set (snd (loop s i)) \<Longrightarrow>
     line_fields (wire (snd t)) = map print_int (numbers (snd t)) \<and>
     numbers (snd t) =
       (if fst t = Immediate
        then [freq s, pressX i, pressY i, waveformType (fst (loop s i))]
        else [freq s, joyX i, joyY i, waveformType (fst (loop s i))])"
  by (auto simp: loop_def Let_def line_fields4 split: if_splits)

lemma pot_loop_line_numbers:
  "t \<in> set (snd (pot_loop s i)) \<Longrightarrow>
     line_fields (wire (snd t)) = map print_int (numbers (snd t)) \<and>
     numbers (snd t) =
       (if fst t = Immediate
        then [pot_freq s, pressPot i, pot_waveformType (fst (pot_loop s i))]
        else [pot_freq s, potValue i, pot_waveformType (fst (pot_loop s i))])"
  by (auto simp: pot_loop_def Let_def line_fields3 split: if_splits)

text \<open>
  Claim C1, as amended. Every transmission of the joystick firmware is a line of ASCII
  characters with exactly four comma-separated decimal fields, ended by the carriage return
  and line feed of \<open>println\<close>. Its fields are, in this order, the frequency at the start
  of the pass, the reading of the X axis, the reading of the Y axis and the waveform after
  the pass's button handling: on the immediate path of a button press the axis readings
  are the two \<open>analogRead\<close>s of the button branch, on the periodic path those of lines
  41-42. Every transmission of the potentiometer firmware is such a line of exactly three
  fields: the frequency, the potentiometer reading (the \<open>analogRead\<close> of the button
  branch on the immediate path, \<open>potValue\<close> on the periodic path) and the waveform.
\<close>

theorem C1_line_format:
  "(\<forall>t\<in>set (snd (loop s i)).
      csv_line 4 (wire (snd t)) \<and>
      line_fields (wire (snd t)) = map print_int (numbers (snd t)) \<and>
      numbers (snd t) =
        (if fst t = Immediate
         then [freq s, pressX i, pressY i, waveformType (fst (loop s i))]
         else [freq s, joyX i, joyY i, waveformType (fst (loop s i))])) \<and>
   (\<forall>t\<in>set (snd (pot_loop s' i')).
      csv_line 3 (wire (snd t)) \<and>
      line_fields (wire (snd t)) = map print_int (numbers (snd t)) \<and>
      numbers (snd t) =
        (if fst t = Immediate
         then [pot_freq s', pressPot i', pot_waveformType (fst (pot_loop s' i'))]
         else [pot_freq s', potValue i', pot_waveformType (fst (pot_loop s' i'))]))"
  using loop_lines [of _ s i] loop_line_numbers [of _ s i]
    pot_loop_lines [of _ s' i'] pot_loop_line_numbers [of _ s' i']
  by blast

text \<open>
  A pass from power-on with the button held down and 1000 ms on the clock takes both paths,
  in each firmware. The readings of the button branch (7 and 9, or 7) differ from those
  taken after it (512 and 300, or 512), and each line carries its own.
\<close>

theorem C1_line_format_witness:
  "snd (loop joy_init (joy_press\<lparr>pressX := 7, pressY := 9\<rparr>)) =
     [(Immediate, [Print_int 100, Print_str '','', Print_int 7, Print_str '','',
                   Print_int 9, Print_str '','', Println_int 1]),
      (Periodic, [Print_int 100, Print_str '','', Print_int 512, Print_str '','',
                  Print_int 300, Print_str '','', Println_int 1])] \<and>
   csv_line 4 (wire [Print_int 100, Print_str '','', Print_int 7, Print_str '','',
                     Print_int 9, Print_str '','', Println_int 1]) \<and>
   csv_line 4 (wire [Print_int 100, Print_str '','', Print_int 512, Print_str '','',
                     Print_int 300, Print_str '','', Println_int 1]) \<and>
   line_fields (wire [Print_int 100, Print_str '','', Print_int 7, Print_str '','',
                      Print_int 9, Print_str '','', Println_int 1])
     = map print_int [100, 7, 9, 1] \<and>
   line_fields (wire [Print_int 100, Print_str '','', Print_int 512, Print_str '','',
                      Print_int 300, Print_str '','', Println_int 1])
     = map print_int [100, 512, 300, 1] \<and>
   snd (pot_loop pot_init (pot_press\<lparr>pressPot := 7\<rparr>)) =
     [(Immediate, [Print_int 100, Print_str '','', Print_int 7, Print_str '','',
                   Println_int 1]),
      (Periodic, [Print_int 100, Print_str '','', Print_int 512, Print_str '','',
                  Println_int 1])] \<and>
   csv_line 3 (wire [Print_int 100, Print_str '','', Print_int 7, Print_str '','',
                     Println_int 1]) \<and>
   csv_line 3 (wire [Print_int 100, Print_str '','', Print_int 512, Print_str '','',
                     Println_int 1]) \<and>
   line_fields (wire [Print_int 100, Print_str '','', Print_int 7, Print_str '','',
                      Println_int 1])
     = map print_int [100, 7, 1] \<and>
   line_fields (wire [Print_int 100, Print_str '','', Print_int 512, Print_str '','',
                      Println_int 1])
     = map print_int [100, 512, 1]"
proof -
  have a: "snd (loop joy_init (joy_press\<lparr>pressX := 7, pressY := 9\<rparr>)) =
     [(Immediate, [Print_int 100, Print_str '','', Print_int 7, Print_str '','',
                   Print_int 9, Print_str '','', Println_int 1]),
      (Periodic, [Print_int 100, Print_str '','', Print_int 512, Print_str '','',
                  Print_int 300, Print_str '','', Println_int 1])]"
    by code_simp
  have b: "snd (pot_loop pot_init (pot_press\<lparr>pressPot := 7\<rparr>)) =
     [(Immediate, [Print_int 100, Print_str '','', Print_int 7, Print_str '','',
                   Println_int 1]),
      (Periodic, [Print_int 100, Print_str '','', Print_int 512, Print_str '','',
                  Println_int 1])]"
    by code_simp
  show ?thesis
    using C1_line_format [of joy_init "joy_press\<lparr>pressX := 7, pressY := 9\<rparr>"
                             pot_init "pot_press\<lparr>pressPot := 7\<rparr>"]
    unfolding a b by simp
qed

text \<open>
  The four-field format of claim C1 does not hold of the potentiometer firmware: on both
  paths of that pass it writes \<open>100,512,1\<close>, three fields.
\<close>

theorem C1_three_fields_counterexample:
  "hd (snd (pot_loop pot_init pot_press)) \<in> set (snd (pot_loop pot_init pot_press)) \<and>
   fst (hd (snd (pot_loop pot_init pot_press))) = Immediate \<and>
   wire (snd (hd (snd (pot_loop pot_init pot_press)))) = ''100,512,1'' @ [CR, LF] \<and>
   line_fields (wire (snd (hd (snd (pot_loop pot_init pot_press))))) = [''100'', ''512'', ''1''] \<and>
   \<not> csv_line 4 (wire (snd (hd (snd (pot_loop pot_init pot_press))))) \<and>
   last (snd (pot_loop pot_init pot_press)) \<in> set (snd (pot_loop pot_init pot_press)) \<and>
   fst (last (snd (pot_loop pot_init pot_press))) = Periodic \<and>
   \<not> csv_line 4 (wire (snd (last (snd (pot_loop pot_init pot_press)))))"
  by code_simp

lemma run_take_Suc:
  "k < length ins \<Longrightarrow> run s (take (Suc k) ins) = fst (loop (run s (take k ins)) (ins ! k))"
proof (induction ins arbitrary: s k)
  case Nil
  then show ?case by simp
next
  case (Cons a ins)
  then show ?case by (cases k) simp_all
qed

lemma sent_nth:
  "k < length ins \<Longrightarrow> sent s ins ! k = snd (loop (run s (take k ins)) (ins ! k))"
proof (induction ins arbitrary: s k)
  case Nil
  then show ?case by simp
next
  case (Cons a ins)
  then show ?case by (cases k) simp_all
qed

lemma length_sent: "length (sent s ins) = length ins"
  by (induction ins arbitrary: s) simp_all

lemma run_take_freq_inv:
  assumes "\<forall>i\<in>set ins. adc (joyX i)"
  shows "100 \<le> freq (run joy_init (take k ins)) \<and> freq (run joy_init (take k ins)) \<le> 2000"
proof -
  have "\<forall>i\<in>set (take k ins). 0 \<le> joyX i \<and> joyX i \<le> 1023"
    using assms by (auto simp: adc_def dest: in_set_takeD)
  then show ?thesis by (rule run_freq_inv) (simp_all add: joy_init_def)
qed

lemma loop_frequency:
  assumes "\<forall>i\<in>set ins. adc (joyX i)"
  shows "(\<forall>k<length ins. \<forall>t\<in>set (sent joy_init ins ! k).
           tx_freq t = freq (run joy_init (take k ins)) \<and> 100 \<le> tx_freq t \<and> tx_freq t \<le> 2000) \<and>
         (\<forall>k<length ins.
           freq (run joy_init (take (Suc k) ins)) =
             (if freq (run joy_init (take k ins)) + map_long (joyX (ins ! k)) 0 1023 2 100 > 2000
              then 100
              else freq (run joy_init (take k ins)) + map_long (joyX (ins ! k)) 0 1023 2 100))"
proof (intro conjI allI impI ballI)
  fix k t
  assume k: "k < length ins" and t: "t \<in> set (sent joy_init ins ! k)"
  from t have "tx_freq t = freq (run joy_init (take k ins))"
    by (simp add: sent_nth [OF k] loop_tx_freq)
  then show "tx_freq t = freq (run joy_init (take k ins))"
    and "100 \<le> tx_freq t" and "tx_freq t \<le> 2000"
    using run_take_freq_inv [OF assms, of k] by simp_all
next
  fix k
  assume k: "k < length ins"
  then have "adc (joyX (ins ! k))" using assms by simp
  then have x: "0 \<le> joyX (ins ! k)" "joyX (ins ! k) \<le> 1023" by (simp_all add: adc_def)
  show "freq (run joy_init (take (Suc k) ins)) =
          (if freq (run joy_init (take k ins)) + map_long (joyX (ins ! k)) 0 1023 2 100 > 2000
           then 100
           else freq (run joy_init (take k ins)) + map_long (joyX (ins ! k)) 0 1023 2 100)"
    unfolding run_take_Suc [OF k]
    using run_take_freq_inv [OF assms, of k] by (intro loop_freq x) simp_all
qed

lemma pot_run_take_Suc:
  "k < length ins \<Longrightarrow> pot_run s (take (Suc k) ins) = fst (pot_loop (pot_run s (take k ins)) (ins ! k))"
proof (induction ins arbitrary: s k)
  case Nil
  then show ?case by simp
next
  case (Cons a ins)
  then show ?case by (cases k) simp_all
qed

lemma pot_sent_nth:
  "k < length ins \<Longrightarrow> pot_sent s ins ! k = snd (pot_loop (pot_run s (take k ins)) (ins ! k))"
proof (induction ins arbitrary: s k)
  case Nil
  then show ?case by simp
next
  case (Cons a ins)
  then show ?case by (cases k) simp_all
qed

lemma pot_length_sent: "length (pot_sent s ins) = length ins"
  by (induction ins arbitrary: s) simp_all

lemma pot_run_take_freq_inv:
  assumes "\<forall>i\<in>set ins. adc (potValue i)"
  shows "100 \<le> pot_freq (pot_run pot_init (take k ins)) \<and> pot_freq (pot_run pot_init (take k ins)) \<le> 2000"
proof -
  have "\<forall>i\<in>set (take k ins). 0 \<le> potValue i \<and> potValue i \<le> 1023"
    using assms by (auto simp: adc_def dest: in_set_takeD)
  then show ?thesis by (rule pot_run_freq_inv) (simp_all add: pot_init_def)
qed

lemma pot_loop_frequency:
  assumes "\<forall>i\<in>set ins. adc (potValue i)"
  shows "(\<forall>k<length ins. \<forall>t\<in>set (pot_sent pot_init ins ! k).
           tx_freq t = pot_freq (pot_run pot_init (take k ins)) \<and> 100 \<le> tx_freq t \<and> tx_freq t \<le> 2000) \<and>
         (\<forall>k<length ins.
           pot_freq (pot_run pot_init (take (Suc k) ins)) =
             (if pot_freq (pot_run pot_init (take k ins)) + map_long (potValue (ins ! k)) 0 1023 2 100 > 2000
              then 100
              else pot_freq (pot_run pot_init (take k ins)) + map_long (potValue (ins ! k)) 0 1023 2 100))"
proof (intro conjI allI impI ballI)
  fix k t
  assume k: "k < length ins" and t: "t \<in> set (pot_sent pot_init ins ! k)"
  from t have "tx_freq t = pot_freq (pot_run pot_init (take k ins))"
    by (simp add: pot_sent_nth [OF k] pot_loop_tx_freq)
  then show "tx_freq t = pot_freq (pot_run pot_init (take k ins))"
    and "100 \<le> tx_freq t" and "tx_freq t \<le> 2000"
    using pot_run_take_freq_inv [OF assms, of k] by simp_all
next
  fix k
  assume k: "k < length ins"
  then have "adc (potValue (ins ! k))" using assms by simp
  then have x: "0 \<le> potValue (ins ! k)" "potValue (ins ! k) \<le> 1023" by (simp_all add: adc_def)
  show "pot_freq (pot_run pot_init (take (Suc k) ins)) =
          (if pot_freq (pot_run pot_init (take k ins)) + map_long (potValue (ins ! k)) 0 1023 2 100 > 2000
           then 100
           else pot_freq (pot_run pot_init (take k ins)) + map_long (potValue (ins ! k)) 0 1023 2 100)"
    unfolding pot_run_take_Suc [OF k]
    using pot_run_take_freq_inv [OF assms, of k] by (intro pot_loop_freq x) simp_all
qed


text \<open>
  Claim C2. The frequency starts at 100. Whatever the readings of the converter, every
  transmission carries the value the frequency has at the start of its pass, which lies
  between 100 and 2000; a pass adds the sweep step to it and sets it back to 100 when the
  sum exceeds 2000, before the next pass transmits. The same holds of the potentiometer
  firmware.
\<close>

theorem C2_frequency_range:
  assumes "\<forall>i\<in>set ins. adc (joyX i)" and "\<forall>i\<in>set pins. adc (potValue i)"
  shows "freq joy_init = 100 \<and>
         (\<forall>k<length ins. \<forall>t\<in>set (sent joy_init ins ! k).
           tx_freq t = freq (run joy_init (take k ins)) \<and> 100 \<le> tx_freq t \<and> tx_freq t \<le> 2000) \<and>
         (\<forall>k<length ins.
           freq (run joy_init (take (Suc k) ins)) =
             (if freq (run joy_init (take k ins)) + map_long (joyX (ins ! k)) 0 1023 2 100 > 2000
              then 100
              else freq (run joy_init (take k ins)) + map_long (joyX (ins ! k)) 0 1023 2 100)) \<and>
         pot_freq pot_init = 100 \<and>
         (\<forall>k<length pins. \<forall>t\<in>set (pot_sent pot_init pins ! k).
           tx_freq t = pot_freq (pot_run pot_init (take k pins)) \<and>
           100 \<le> tx_freq t \<and> tx_freq t \<le> 2000) \<and>
         (\<forall>k<length pins.
           pot_freq (pot_run pot_init (take (Suc k) pins)) =
             (if pot_freq (pot_run pot_init (take k pins))
                   + map_long (potValue (pins ! k)) 0 1023 2 100 > 2000
              then 100
              else pot_freq (pot_run pot_init (take k pins))
                   + map_long (potValue (pins ! k)) 0 1023 2 100))"
proof -
  have "freq joy_init = 100" "pot_freq pot_init = 100"
    by (simp_all add: joy_init_def pot_init_def)
  then show ?thesis
    using loop_frequency [OF assms(1)] pot_loop_frequency [OF assms(2)] by blast
qed

text \<open>
  Two passes, the second with the stick at 1023 and the clock 25 ms on: it transmits 151.
\<close>

theorem C2_frequency_range_witness:
  "adc (joyX joy_press) \<and> adc (joyX joy_idle) \<and> adc (potValue pot_press) \<and>
   adc (potValue pot_idle) \<and>
   hd (sent joy_init [joy_press, joy_idle] ! 1) \<in> set (sent joy_init [joy_press, joy_idle] ! 1) \<and>
   tx_freq (hd (sent joy_init [joy_press, joy_idle] ! 1)) = 151 \<and>
   100 \<le> tx_freq (hd (sent joy_init [joy_press, joy_idle] ! 1)) \<and>
   tx_freq (hd (sent joy_init [joy_press, joy_idle] ! 1)) \<le> 2000 \<and>
   hd (pot_sent pot_init [pot_press, pot_idle] ! 1)
     \<in> set (pot_sent pot_init [pot_press, pot_idle] ! 1) \<and>
   100 \<le> tx_freq (hd (pot_sent pot_init [pot_press, pot_idle] ! 1)) \<and>
   tx_freq (hd (pot_sent pot_init [pot_press, pot_idle] ! 1)) \<le> 2000"
proof -
  let ?ins = "[joy_press, joy_idle]"
  let ?pins = "[pot_press, pot_idle]"
  have h: "adc (joyX joy_press)" "adc (joyX joy_idle)" "adc (potValue pot_press)"
    "adc (potValue pot_idle)"
    by (simp_all add: adc_def joy_press_def joy_idle_def pot_press_def pot_idle_def)
  have m1: "hd (sent joy_init ?ins ! 1) \<in> set (sent joy_init ?ins ! 1)"
    by code_simp
  have m2: "hd (pot_sent pot_init ?pins ! 1) \<in> set (pot_sent pot_init ?pins ! 1)"
    by code_simp
  have v: "tx_freq (hd (sent joy_init ?ins ! 1)) = 151"
    by code_simp
  have "\<forall>i\<in>set ?ins. adc (joyX i)" "\<forall>i\<in>set ?pins. adc (potValue i)"
    using h by simp_all
  from C2_frequency_range [OF this]
  have a: "\<forall>k<length ?ins. \<forall>t\<in>set (sent joy_init ?ins ! k). 100 \<le> tx_freq t \<and> tx_freq t \<le> 2000"
    and b: "\<forall>k<length ?pins. \<forall>t\<in>set (pot_sent pot_init ?pins ! k).
              100 \<le> tx_freq t \<and> tx_freq t \<le> 2000"
    by blast+
  have l: "1 < length ?ins" "1 < length ?pins" by simp_all
  from a l(1) m1
  have c: "100 \<le> tx_freq (hd (sent joy_init ?ins ! 1)) \<and> tx_freq (hd (sent joy_init ?ins ! 1)) \<le> 2000"
    by blast
  from b l(2) m2
  have d: "100 \<le> tx_freq (hd (pot_sent pot_init ?pins ! 1)) \<and>
           tx_freq (hd (pot_sent pot_init ?pins ! 1)) \<le> 2000"
    by blast
  show ?thesis using h m1 m2 v c d by blast
qed

lemma loop_button: "lastJoyButtonState (fst (loop s i)) = joyButton i"
  by (simp add: loop_def Let_def)

lemma run_wave_init:
  "0 \<le> waveformType (run joy_init ins) \<and> waveformType (run joy_init ins) \<le> 7"
  by (rule run_wave_inv) (simp_all add: joy_init_def)

lemma loop_waveform:
  "(\<forall>out\<in>set (sent joy_init ins). \<forall>t\<in>set out. 0 \<le> tx_waveform t \<and> tx_waveform t \<le> 7) \<and>
   0 \<le> waveformType (run joy_init ins) \<and> waveformType (run joy_init ins) \<le> 7 \<and>
   (\<not> joyButton i \<and> lastJoyButtonState (run joy_init ins) \<longrightarrow>
      waveformType (fst (loop (run joy_init ins) i)) = (waveformType (run joy_init ins) + 1) mod 8)"
proof (intro conjI ballI impI)
  fix out t
  assume "out \<in> set (sent joy_init ins)" "t \<in> set out"
  then have "0 \<le> tx_waveform t \<and> tx_waveform t \<le> 7"
    by (intro sent_wave [of joy_init out ins t]) (simp_all add: joy_init_def)
  then show "0 \<le> tx_waveform t" "tx_waveform t \<le> 7" by simp_all
next
  show "0 \<le> waveformType (run joy_init ins)" "waveformType (run joy_init ins) \<le> 7"
    using run_wave_init [of ins] by simp_all
next
  assume "\<not> joyButton i \<and> lastJoyButtonState (run joy_init ins)"
  then show "waveformType (fst (loop (run joy_init ins) i))
               = (waveformType (run joy_init ins) + 1) mod 8"
    using run_wave_init [of ins] by (simp add: loop_wave wave_step)
qed

lemma pot_loop_button: "lastButtonState (fst (pot_loop s i)) = button i"
  by (simp add: pot_loop_def Let_def)

lemma pot_run_wave_init:
  "0 \<le> pot_waveformType (pot_run pot_init ins) \<and> pot_waveformType (pot_run pot_init ins) \<le> 7"
  by (rule pot_run_wave_inv) (simp_all add: pot_init_def)

lemma pot_loop_waveform:
  "(\<forall>out\<in>set (pot_sent pot_init ins). \<forall>t\<in>set out. 0 \<le> tx_waveform t \<and> tx_waveform t \<le> 7) \<and>
   0 \<le> pot_waveformType (pot_run pot_init ins) \<and> pot_waveformType (pot_run pot_init ins) \<le> 7 \<and>
   (\<not> button i \<and> lastButtonState (pot_run pot_init ins) \<longrightarrow>
      pot_waveformType (fst (pot_loop (pot_run pot_init ins) i)) = (pot_waveformType (pot_run pot_init ins) + 1) mod 8)"
proof (intro conjI ballI impI)
  fix out t
  assume "out \<in> set (pot_sent pot_init ins)" "t \<in> set out"
  then have "0 \<le> tx_waveform t \<and> tx_waveform t \<le> 7"
    by (intro pot_sent_wave [of pot_init out ins t]) (simp_all add: pot_init_def)
  then show "0 \<le> tx_waveform t" "tx_waveform t \<le> 7" by simp_all
next
  show "0 \<le> pot_waveformType (pot_run pot_init ins)" "pot_waveformType (pot_run pot_init ins) \<le> 7"
    using pot_run_wave_init [of ins] by simp_all
next
  assume "\<not> button i \<and> lastButtonState (pot_run pot_init ins)"
  then show "pot_waveformType (fst (pot_loop (pot_run pot_init ins) i))
               = (pot_waveformType (pot_run pot_init ins) + 1) mod 8"
    using pot_run_wave_init [of ins] by (simp add: pot_loop_wave wave_step)
qed


text \<open>
  Claim C3. The waveform selector starts at 0 and stays within 0..7 after any number of
  passes, whatever is read; a button press advances it by one modulo 8; every transmission
  carries a waveform within 0..7. The same holds of the potentiometer firmware.
\<close>

theorem C3_waveform_range:
  "waveformType joy_init = 0 \<and>
   (\<forall>out\<in>set (sent joy_init ins). \<forall>t\<in>set out. 0 \<le> tx_waveform t \<and> tx_waveform t \<le> 7) \<and>
   0 \<le> waveformType (run joy_init ins) \<and> waveformType (run joy_init ins) \<le> 7 \<and>
   (\<not> joyButton i \<and> lastJoyButtonState (run joy_init ins) \<longrightarrow>
      waveformType (fst (loop (run joy_init ins) i)) = (waveformType (run joy_init ins) + 1) mod 8) \<and>
   pot_waveformType pot_init = 0 \<and>
   (\<forall>out\<in>set (pot_sent pot_init pins). \<forall>t\<in>set out. 0 \<le> tx_waveform t \<and> tx_waveform t \<le> 7) \<and>
   0 \<le> pot_waveformType (pot_run pot_init pins) \<and> pot_waveformType (pot_run pot_init pins) \<le> 7 \<and>
   (\<not> button j \<and> lastButtonState (pot_run pot_init pins) \<longrightarrow>
      pot_waveformType (fst (pot_loop (pot_run pot_init pins) j))
        = (pot_waveformType (pot_run pot_init pins) + 1) mod 8)"
proof -
  have "waveformType joy_init = 0" "pot_waveformType pot_init = 0"
    by (simp_all add: joy_init_def pot_init_def)
  then show ?thesis
    using loop_waveform [of ins i] pot_loop_waveform [of pins j] by blast
qed

text \<open>
  One press from power-on transmits waveform 1. After seven presses, each followed by a
  release, the selector is at 7, and the eighth press takes it round to 0.
\<close>

theorem C3_waveform_range_witness:
  "hd (sent joy_init [joy_press]) \<in> set (sent joy_init [joy_press]) \<and>
   hd (hd (sent joy_init [joy_press])) \<in> set (hd (sent joy_init [joy_press])) \<and>
   tx_waveform (hd (hd (sent joy_init [joy_press]))) = 1 \<and>
   0 \<le> tx_waveform (hd (hd (sent joy_init [joy_press]))) \<and>
   tx_waveform (hd (hd (sent joy_init [joy_press]))) \<le> 7 \<and>
   \<not> joyButton joy_press \<and>
   lastJoyButtonState (run joy_init (concat (replicate 7 [joy_press, joy_idle]))) \<and>
   waveformType (run joy_init (concat (replicate 7 [joy_press, joy_idle]))) = 7 \<and>
   waveformType (fst (loop (run joy_init (concat (replicate 7 [joy_press, joy_idle]))) joy_press)) = 0 \<and>
   hd (pot_sent pot_init [pot_press]) \<in> set (pot_sent pot_init [pot_press]) \<and>
   hd (hd (pot_sent pot_init [pot_press])) \<in> set (hd (pot_sent pot_init [pot_press])) \<and>
   0 \<le> tx_waveform (hd (hd (pot_sent pot_init [pot_press]))) \<and>
   tx_waveform (hd (hd (pot_sent pot_init [pot_press]))) \<le> 7 \<and>
   \<not> button pot_press \<and>
   lastButtonState (pot_run pot_init (concat (replicate 7 [pot_press, pot_idle]))) \<and>
   pot_waveformType (pot_run pot_init (concat (replicate 7 [pot_press, pot_idle]))) = 7 \<and>
   pot_waveformType (fst (pot_loop (pot_run pot_init (concat (replicate 7 [pot_press, pot_idle])))
                            pot_press)) = 0"
proof -
  let ?ins = "concat (replicate 7 [joy_press, joy_idle])"
  let ?pins = "concat (replicate 7 [pot_press, pot_idle])"
  have m: "hd (sent joy_init [joy_press]) \<in> set (sent joy_init [joy_press])"
    "hd (hd (sent joy_init [joy_press])) \<in> set (hd (sent joy_init [joy_press]))"
    "hd (pot_sent pot_init [pot_press]) \<in> set (pot_sent pot_init [pot_press])"
    "hd (hd (pot_sent pot_init [pot_press])) \<in> set (hd (pot_sent pot_init [pot_press]))"
    by code_simp+
  have v: "tx_waveform (hd (hd (sent joy_init [joy_press]))) = 1"
    by code_simp
  have b: "\<not> joyButton joy_press" "\<not> button pot_press"
    by (simp_all add: joy_press_def pot_press_def)
  have l: "lastJoyButtonState (run joy_init ?ins)" "lastButtonState (pot_run pot_init ?pins)"
    by code_simp+
  have w: "waveformType (run joy_init ?ins) = 7" "pot_waveformType (pot_run pot_init ?pins) = 7"
    by code_simp+
  have r: "0 \<le> tx_waveform (hd (hd (sent joy_init [joy_press]))) \<and>
           tx_waveform (hd (hd (sent joy_init [joy_press]))) \<le> 7"
    "0 \<le> tx_waveform (hd (hd (pot_sent pot_init [pot_press]))) \<and>
     tx_waveform (hd (hd (pot_sent pot_init [pot_press]))) \<le> 7"
    using C3_waveform_range [of "[joy_press]" joy_press "[pot_press]" pot_press] m by blast+
  have "waveformType (fst (loop (run joy_init ?ins) joy_press))
          = (waveformType (run joy_init ?ins) + 1) mod 8"
    "pot_waveformType (fst (pot_loop (pot_run pot_init ?pins) pot_press))
          = (pot_waveformType (pot_run pot_init ?pins) + 1) mod 8"
    using C3_waveform_range [of ?ins joy_press ?pins pot_press] b l by blast+
  then have s: "waveformType (fst (loop (run joy_init ?ins) joy_press)) = 0"
    "pot_waveformType (fst (pot_loop (pot_run pot_init ?pins) pot_press)) = 0"
    unfolding w by simp_all
  show ?thesis using m v b l w r s by blast
qed

lemma loop_sweep:
  assumes "adc (joyX i)" "100 \<le> freq s" "freq s \<le> 2000"
  shows "(if freq s + map_long (joyX i) 0 1023 2 100 \<le> 2000
          then freq (fst (loop s i)) = freq s + map_long (joyX i) 0 1023 2 100 \<and>
               freq s + 2 \<le> freq (fst (loop s i)) \<and> freq (fst (loop s i)) \<le> freq s + 100
          else freq (fst (loop s i)) = 100)"
proof -
  have x: "0 \<le> joyX i" "joyX i \<le> 1023" using assms(1) by (simp_all add: adc_def)
  show ?thesis
    using map_long_adc_bounds [OF x] by (simp add: loop_freq [OF x assms(2,3)])
qed

lemma pot_loop_sweep:
  assumes "adc (potValue i)" "100 \<le> pot_freq s" "pot_freq s \<le> 2000"
  shows "(if pot_freq s + map_long (potValue i) 0 1023 2 100 \<le> 2000
          then pot_freq (fst (pot_loop s i)) = pot_freq s + map_long (potValue i) 0 1023 2 100 \<and>
               pot_freq s + 2 \<le> pot_freq (fst (pot_loop s i)) \<and> pot_freq (fst (pot_loop s i)) \<le> pot_freq s + 100
          else pot_freq (fst (pot_loop s i)) = 100)"
proof -
  have x: "0 \<le> potValue i" "potValue i \<le> 1023" using assms(1) by (simp_all add: adc_def)
  show ?thesis
    using map_long_adc_bounds [OF x] by (simp add: pot_loop_freq [OF x assms(2,3)])
qed


text \<open>
  Claim C9. For readings \<open>x \<le> y\<close> of the converter, the sweep step \<open>map(x, 0, 1023, 2, 100)\<close>
  lies between 2 and 100, fits the 16-bit \<open>sweepSpeed\<close> unchanged, and is no larger than
  the step of \<open>y\<close>. So a pass that starts with the frequency within 100..2000 raises it by
  the step, by at least 2 and at most 100, unless the sum exceeds 2000, when the frequency
  becomes 100. The same holds of the potentiometer firmware.
\<close>

theorem C9_sweep_step:
  assumes "adc x" "adc y" "x \<le> y"
  shows "2 \<le> map_long x 0 1023 2 100 \<and> map_long x 0 1023 2 100 \<le> 100 \<and>
         map_long x 0 1023 2 100 \<le> map_long y 0 1023 2 100 \<and>
         int16 (map_long x 0 1023 2 100) = map_long x 0 1023 2 100 \<and>
         (joyX i = x \<and> 100 \<le> freq s \<and> freq s \<le> 2000 \<longrightarrow>
            (if freq s + map_long x 0 1023 2 100 \<le> 2000
             then freq (fst (loop s i)) = freq s + map_long x 0 1023 2 100 \<and>
                  freq s + 2 \<le> freq (fst (loop s i)) \<and> freq (fst (loop s i)) \<le> freq s + 100
             else freq (fst (loop s i)) = 100)) \<and>
         (potValue j = x \<and> 100 \<le> pot_freq p \<and> pot_freq p \<le> 2000 \<longrightarrow>
            (if pot_freq p + map_long x 0 1023 2 100 \<le> 2000
             then pot_freq (fst (pot_loop p j)) = pot_freq p + map_long x 0 1023 2 100 \<and>
                  pot_freq p + 2 \<le> pot_freq (fst (pot_loop p j)) \<and>
                  pot_freq (fst (pot_loop p j)) \<le> pot_freq p + 100
             else pot_freq (fst (pot_loop p j)) = 100))"
proof -
  have x: "0 \<le> x" "x \<le> 1023" and y: "y \<le> 1023"
    using assms(1,2) by (simp_all add: adc_def)
  have a: "2 \<le> map_long x 0 1023 2 100" "map_long x 0 1023 2 100 \<le> 100"
    by (rule map_long_adc_bounds [OF x])+
  have b: "map_long x 0 1023 2 100 \<le> map_long y 0 1023 2 100"
    by (rule map_long_adc_mono [OF x(1) assms(3) y])
  have c: "int16 (map_long x 0 1023 2 100) = map_long x 0 1023 2 100"
    by (rule sweepSpeed_adc [OF x])
  have d: "joyX i = x \<and> 100 \<le> freq s \<and> freq s \<le> 2000 \<longrightarrow>
            (if freq s + map_long x 0 1023 2 100 \<le> 2000
             then freq (fst (loop s i)) = freq s + map_long x 0 1023 2 100 \<and>
                  freq s + 2 \<le> freq (fst (loop s i)) \<and> freq (fst (loop s i)) \<le> freq s + 100
             else freq (fst (loop s i)) = 100)"
    using loop_sweep [of i s] assms(1) by blast
  have e: "potValue j = x \<and> 100 \<le> pot_freq p \<and> pot_freq p \<le> 2000 \<longrightarrow>
            (if pot_freq p + map_long x 0 1023 2 100 \<le> 2000
             then pot_freq (fst (pot_loop p j)) = pot_freq p + map_long x 0 1023 2 100 \<and>
                  pot_freq p + 2 \<le> pot_freq (fst (pot_loop p j)) \<and>
                  pot_freq (fst (pot_loop p j)) \<le> pot_freq p + 100
             else pot_freq (fst (pot_loop p j)) = 100)"
    using pot_loop_sweep [of j p] assms(1) by blast
  show ?thesis using a b c d e by blast
qed

text \<open>
  Readings 512 and 1023 give the steps 51 and 100; from power-on the first pass takes the
  frequency from 100 to 151.
\<close>

theorem C9_sweep_step_witness:
  "adc 512 \<and> adc 1023 \<and> (512 :: int) \<le> 1023 \<and>
   map_long 512 0 1023 2 100 = 51 \<and> map_long 1023 0 1023 2 100 = 100 \<and>
   2 \<le> map_long 512 0 1023 2 100 \<and> map_long 512 0 1023 2 100 \<le> map_long 1023 0 1023 2 100 \<and>
   joyX joy_press = 512 \<and> freq joy_init = 100 \<and>
   freq (fst (loop joy_init joy_press)) = freq joy_init + map_long 512 0 1023 2 100 \<and>
   potValue pot_press = 512 \<and> pot_freq pot_init = 100 \<and>
   pot_freq (fst (pot_loop pot_init pot_press)) = pot_freq pot_init + map_long 512 0 1023 2 100"
proof -
  have h: "adc 512" "adc 1023" "(512 :: int) \<le> 1023"
    by (simp_all add: adc_def)
  have v: "map_long 512 0 1023 2 100 = 51" "map_long 1023 0 1023 2 100 = 100"
    by code_simp+
  have i: "joyX joy_press = 512" "freq joy_init = 100" "potValue pot_press = 512"
    "pot_freq pot_init = 100"
    by (simp_all add: joy_press_def joy_init_def pot_press_def pot_init_def)
  note t = C9_sweep_step [OF h, of joy_press joy_init pot_press pot_init]
  have a: "2 \<le> map_long 512 0 1023 2 100"
    "map_long 512 0 1023 2 100 \<le> map_long 1023 0 1023 2 100"
    using t by blast+
  have "freq joy_init + map_long 512 0 1023 2 100 \<le> 2000"
    "pot_freq pot_init + map_long 512 0 1023 2 100 \<le> 2000"
    unfolding v i by simp_all
  then have b: "freq (fst (loop joy_init joy_press)) = freq joy_init + map_long 512 0 1023 2 100"
    "pot_freq (fst (pot_loop pot_init pot_press)) = pot_freq pot_init + map_long 512 0 1023 2 100"
    using t i by auto
  show ?thesis using h v i a b by blast
qed

lemma loop_edge:
  assumes "\<not> joyButton i" "lastJoyButtonState s"
  shows "\<exists>cs rest. snd (loop s i) = (Immediate, cs) # rest \<and>
           tx_waveform (Immediate, cs) = waveformType (fst (loop s i)) \<and>
           tx_freq (Immediate, cs) = freq s \<and>
           \<not> immediate_in rest \<and> length rest \<le> 1 \<and>
           (\<forall>t\<in>set rest. tx_waveform t = waveformType (fst (loop s i)))"
  using assms by (simp add: loop_def Let_def tx_waveform_def tx_freq_def immediate_in_def)

lemma loop_no_edge:
  assumes "\<not> (\<not> joyButton i \<and> lastJoyButtonState s)"
  shows "waveformType (fst (loop s i)) = waveformType s \<and> \<not> immediate_in (snd (loop s i))"
  using assms by (auto simp: loop_def Let_def immediate_in_def)

lemma loop_press:
  "(\<not> joyButton i \<and> lastJoyButtonState (run joy_init ins) \<longrightarrow>
      waveformType (fst (loop (run joy_init ins) i)) = (waveformType (run joy_init ins) + 1) mod 8 \<and>
      (\<exists>cs rest. snd (loop (run joy_init ins) i) = (Immediate, cs) # rest \<and>
         tx_waveform (Immediate, cs) = waveformType (fst (loop (run joy_init ins) i)) \<and>
         \<not> immediate_in rest \<and> length rest \<le> 1 \<and>
         (\<forall>t\<in>set rest. tx_waveform t = waveformType (fst (loop (run joy_init ins) i))))) \<and>
   (\<not> (\<not> joyButton i \<and> lastJoyButtonState (run joy_init ins)) \<longrightarrow>
      waveformType (fst (loop (run joy_init ins) i)) = waveformType (run joy_init ins) \<and>
      \<not> immediate_in (snd (loop (run joy_init ins) i))) \<and>
   lastJoyButtonState (fst (loop (run joy_init ins) i)) = joyButton i"
proof (intro conjI impI)
  assume e: "\<not> joyButton i \<and> lastJoyButtonState (run joy_init ins)"
  then show "waveformType (fst (loop (run joy_init ins) i))
               = (waveformType (run joy_init ins) + 1) mod 8"
    using run_wave_init [of ins] by (simp add: loop_wave wave_step)
  from e loop_edge [of i "run joy_init ins"]
  show "\<exists>cs rest. snd (loop (run joy_init ins) i) = (Immediate, cs) # rest \<and>
         tx_waveform (Immediate, cs) = waveformType (fst (loop (run joy_init ins) i)) \<and>
         \<not> immediate_in rest \<and> length rest \<le> 1 \<and>
         (\<forall>t\<in>set rest. tx_waveform t = waveformType (fst (loop (run joy_init ins) i)))"
    by blast
next
  assume n: "\<not> (\<not> joyButton i \<and> lastJoyButtonState (run joy_init ins))"
  from loop_no_edge [OF n]
  show "waveformType (fst (loop (run joy_init ins) i)) = waveformType (run joy_init ins)"
    and "\<not> immediate_in (snd (loop (run joy_init ins) i))"
    by simp_all
next
  show "lastJoyButtonState (fst (loop (run joy_init ins) i)) = joyButton i"
    by (rule loop_button)
qed

lemma pot_loop_edge:
  assumes "\<not> button i" "lastButtonState s"
  shows "\<exists>cs rest. snd (pot_loop s i) = (Immediate, cs) # rest \<and>
           tx_waveform (Immediate, cs) = pot_waveformType (fst (pot_loop s i)) \<and>
           tx_freq (Immediate, cs) = pot_freq s \<and>
           \<not> immediate_in rest \<and> length rest \<le> 1 \<and>
           (\<forall>t\<in>set rest. tx_waveform t = pot_waveformType (fst (pot_loop s i)))"
  using assms by (simp add: pot_loop_def Let_def tx_waveform_def tx_freq_def immediate_in_def)

lemma pot_loop_no_edge:
  assumes "\<not> (\<not> button i \<and> lastButtonState s)"
  shows "pot_waveformType (fst (pot_loop s i)) = pot_waveformType s \<and> \<not> immediate_in (snd (pot_loop s i))"
  using assms by (auto simp: pot_loop_def Let_def immediate_in_def)

lemma pot_loop_press:
  "(\<not> button i \<and> lastButtonState (pot_run pot_init ins) \<longrightarrow>
      pot_waveformType (fst (pot_loop (pot_run pot_init ins) i)) = (pot_waveformType (pot_run pot_init ins) + 1) mod 8 \<and>
      (\<exists>cs rest. snd (pot_loop (pot_run pot_init ins) i) = (Immediate, cs) # rest \<and>
         tx_waveform (Immediate, cs) = pot_waveformType (fst (pot_loop (pot_run pot_init ins) i)) \<and>
         \<not> immediate_in rest \<and> length rest \<le> 1 \<and>
         (\<forall>t\<in>set rest. tx_waveform t = pot_waveformType (fst (pot_loop (pot_run pot_init ins) i))))) \<and>
   (\<not> (\<not> button i \<and> lastButtonState (pot_run pot_init ins)) \<longrightarrow>
      pot_waveformType (fst (pot_loop (pot_run pot_init ins) i)) = pot_waveformType (pot_run pot_init ins) \<and>
      \<not> immediate_in (snd (pot_loop (pot_run pot_init ins) i))) \<and>
   lastButtonState (fst (pot_loop (pot_run pot_init ins) i)) = button i"
proof (intro conjI impI)
  assume e: "\<not> button i \<and> lastButtonState (pot_run pot_init ins)"
  then show "pot_waveformType (fst (pot_loop (pot_run pot_init ins) i))
               = (pot_waveformType (pot_run pot_init ins) + 1) mod 8"
    using pot_run_wave_init [of ins] by (simp add: pot_loop_wave wave_step)
  from e pot_loop_edge [of i "pot_run pot_init ins"]
  show "\<exists>cs rest. snd (pot_loop (pot_run pot_init ins) i) = (Immediate, cs) # rest \<and>
         tx_waveform (Immediate, cs) = pot_waveformType (fst (pot_loop (pot_run pot_init ins) i)) \<and>
         \<not> immediate_in rest \<and> length rest \<le> 1 \<and>
         (\<forall>t\<in>set rest. tx_waveform t = pot_waveformType (fst (pot_loop (pot_run pot_init ins) i)))"
    by blast
next
  assume n: "\<not> (\<not> button i \<and> lastButtonState (pot_run pot_init ins))"
  from pot_loop_no_edge [OF n]
  show "pot_waveformType (fst (pot_loop (pot_run pot_init ins) i)) = pot_waveformType (pot_run pot_init ins)"
    and "\<not> immediate_in (snd (pot_loop (pot_run pot_init ins) i))"
    by simp_all
next
  show "lastButtonState (fst (pot_loop (pot_run pot_init ins) i)) = button i"
    by (rule pot_loop_button)
qed


text \<open>
  Claim C10. After any passes from power-on, a pass that reads the button low when the
  previous read was high advances the waveform selector by one modulo 8 and writes, before
  anything else of that pass, one immediate line that carries the new waveform; what follows
  in the pass is at most the periodic line, with the same waveform. A pass without that edge
  leaves the selector as it was and writes no immediate line. Each pass records the button
  reading for the next. The same holds of the potentiometer firmware.
\<close>

theorem C10_button_edge:
  "(\<not> joyButton i \<and> lastJoyButtonState (run joy_init ins) \<longrightarrow>
      waveformType (fst (loop (run joy_init ins) i)) = (waveformType (run joy_init ins) + 1) mod 8 \<and>
      (\<exists>cs rest. snd (loop (run joy_init ins) i) = (Immediate, cs) # rest \<and>
         tx_waveform (Immediate, cs) = waveformType (fst (loop (run joy_init ins) i)) \<and>
         \<not> immediate_in rest \<and> length rest \<le> 1 \<and>
         (\<forall>t\<in>set rest. tx_waveform t = waveformType (fst (loop (run joy_init ins) i))))) \<and>
   (\<not> (\<not> joyButton i \<and> lastJoyButtonState (run joy_init ins)) \<longrightarrow>
      waveformType (fst (loop (run joy_init ins) i)) = waveformType (run joy_init ins) \<and>
      \<not> immediate_in (snd (loop (run joy_init ins) i))) \<and>
   lastJoyButtonState (fst (loop (run joy_init ins) i)) = joyButton i \<and>
   (\<not> button j \<and> lastButtonState (pot_run pot_init pins) \<longrightarrow>
      pot_waveformType (fst (pot_loop (pot_run pot_init pins) j))
        = (pot_waveformType (pot_run pot_init pins) + 1) mod 8 \<and>
      (\<exists>cs rest. snd (pot_loop (pot_run pot_init pins) j) = (Immediate, cs) # rest \<and>
         tx_waveform (Immediate, cs) = pot_waveformType (fst (pot_loop (pot_run pot_init pins) j)) \<and>
         \<not> immediate_in rest \<and> length rest \<le> 1 \<and>
         (\<forall>t\<in>set rest.
            tx_waveform t = pot_waveformType (fst (pot_loop (pot_run pot_init pins) j))))) \<and>
   (\<not> (\<not> button j \<and> lastButtonState (pot_run pot_init pins)) \<longrightarrow>
      pot_waveformType (fst (pot_loop (pot_run pot_init pins) j))
        = pot_waveformType (pot_run pot_init pins) \<and>
      \<not> immediate_in (snd (pot_loop (pot_run pot_init pins) j))) \<and>
   lastButtonState (fst (pot_loop (pot_run pot_init pins) j)) = button j"
  using loop_press [of i ins] pot_loop_press [of j pins] by blast

text \<open>
  A press right after power-on takes the selector from 0 to 1; a second pass with the button
  still down is no edge and leaves it at 1.
\<close>

theorem C10_button_edge_witness:
  "\<not> joyButton joy_press \<and> lastJoyButtonState (run joy_init []) \<and>
   waveformType (run joy_init []) = 0 \<and>
   waveformType (fst (loop (run joy_init []) joy_press)) = 1 \<and>
   \<not> lastJoyButtonState (run joy_init [joy_press]) \<and>
   waveformType (fst (loop (run joy_init [joy_press]) joy_press))
     = waveformType (run joy_init [joy_press]) \<and>
   \<not> immediate_in (snd (loop (run joy_init [joy_press]) joy_press)) \<and>
   \<not> button pot_press \<and> lastButtonState (pot_run pot_init []) \<and>
   pot_waveformType (pot_run pot_init []) = 0 \<and>
   pot_waveformType (fst (pot_loop (pot_run pot_init []) pot_press)) = 1 \<and>
   \<not> lastButtonState (pot_run pot_init [pot_press]) \<and>
   pot_waveformType (fst (pot_loop (pot_run pot_init [pot_press]) pot_press))
     = pot_waveformType (pot_run pot_init [pot_press]) \<and>
   \<not> immediate_in (snd (pot_loop (pot_run pot_init [pot_press]) pot_press))"
proof -
  have b: "\<not> joyButton joy_press" "\<not> button pot_press"
    by (simp_all add: joy_press_def pot_press_def)
  have l: "lastJoyButtonState (run joy_init [])" "lastButtonState (pot_run pot_init [])"
    "waveformType (run joy_init []) = 0" "pot_waveformType (pot_run pot_init []) = 0"
    by (simp_all add: joy_init_def pot_init_def)
  have n: "\<not> lastJoyButtonState (run joy_init [joy_press])"
    "\<not> lastButtonState (pot_run pot_init [pot_press])"
    by code_simp+
  note t0 = C10_button_edge [of joy_press "[]" pot_press "[]"]
  note t1 = C10_button_edge [of joy_press "[joy_press]" pot_press "[pot_press]"]
  have "waveformType (fst (loop (run joy_init []) joy_press))
          = (waveformType (run joy_init []) + 1) mod 8"
    "pot_waveformType (fst (pot_loop (pot_run pot_init []) pot_press))
          = (pot_waveformType (pot_run pot_init []) + 1) mod 8"
    using t0 b l(1,2) by blast+
  then have p: "waveformType (fst (loop (run joy_init []) joy_press)) = 1"
    "pot_waveformType (fst (pot_loop (pot_run pot_init []) pot_press)) = 1"
    unfolding l(3,4) by simp_all
  have q: "waveformType (fst (loop (run joy_init [joy_press]) joy_press))
             = waveformType (run joy_init [joy_press])"
    "\<not> immediate_in (snd (loop (run joy_init [joy_press]) joy_press))"
    "pot_waveformType (fst (pot_loop (pot_run pot_init [pot_press]) pot_press))
       = pot_waveformType (pot_run pot_init [pot_press])"
    "\<not> immediate_in (snd (pot_loop (pot_run pot_init [pot_press]) pot_press))"
    using t1 n by blast+
  show ?thesis using b l n p q by blast
qed






text \<open>
  Claim C4. One step of the smoother is \<open>current*0.95 + target*0.05\<close>; \<open>n\<close> steps toward a
  constant target leave the fraction \<open>0.95 ^ n\<close> of the initial distance. From 100 toward
  2000, twenty steps cover \<open>1 - 0.95 ^ 20\<close> of the distance, which lies between 0.641 and
  0.642: about 64 percent, the rise the spec rounds to 63 percent.
\<close>

theorem C4_smoother_rise:
  "smooth current target = current * 0.95 + target * 0.05 \<and>
   smooth_n n current target = target - (target - current) * 0.95 ^ n \<and>
   (smooth_n 20 100 2000 - 100) / (2000 - 100) = 1 - 0.95 ^ 20 \<and>
   0.641 < (smooth_n 20 100 2000 - 100) / (2000 - 100) \<and>
   (smooth_n 20 100 2000 - 100) / (2000 - 100) < 0.642"
proof -
  have a: "(smooth_n 20 100 2000 - 100) / (2000 - 100) = 1 - 0.95 ^ 20"
    unfolding smooth_n_closed by (simp add: field_simps)
  have "(0.358487 :: real) > 0.95 ^ 20" "(0.95 :: real) ^ 20 > 0.358485"
    by (simp_all add: power_divide)
  then have b: "0.641 < 1 - (0.95 :: real) ^ 20" "1 - (0.95 :: real) ^ 20 < 0.642"
    by simp_all
  show ?thesis
    using a b by (simp add: smooth_def smooth_n_closed del: smooth_n.simps)
qed

text \<open>One step from 100 toward 2000 gives 195; two steps give 285.25.\<close>

theorem C4_smoother_rise_witness:
  "smooth 100 2000 = 195 \<and> smooth_n 2 100 2000 = 285.25"
proof -
  have "smooth 100 2000 = 100 * 0.95 + 2000 * 0.05"
    and "smooth_n 2 100 2000 = 2000 - (2000 - 100) * 0.95 ^ 2"
    using C4_smoother_rise [of 100 2000 2] by blast+
  then show ?thesis by (simp add: power2_eq_square)
qed

text \<open>
  Claim C5. A line that is not well formed, \<open>garbage\<close> before the line feed for one,
  leaves every field of the control state as it was; the parser returns a state for every
  line, so nothing is raised. A polling pass over malformed lines only changes nothing, and
  the well-formed lines are exactly those the parser accepts.
\<close>

theorem C5_malformed_ignored:
  "\<not> well_formed (''garbage'' @ [LF]) \<and>
   apply_line st (''garbage'' @ [LF]) = st \<and>
   (\<not> well_formed l \<longrightarrow> apply_line st l = st) \<and>
   ((\<forall>l\<in>set ls. \<not> well_formed l) \<longrightarrow> poll st ls = st) \<and>
   (well_formed l \<longleftrightarrow> (\<exists>c. parse_line l = Some c))"
proof -
  have g: "\<not> well_formed (''garbage'' @ [LF])"
    by code_simp
  have w: "well_formed l \<longleftrightarrow> (\<exists>c. parse_line l = Some c)"
    using parse_line_Some well_formed_parses by blast
  show ?thesis
    using g w malformed_ignored [of _ st] poll_malformed [of ls st] by blast
qed

text \<open>
  A line of three fields and a line with an empty field are ignored, alone and in a
  polling pass together with \<open>garbage\<close>.
\<close>

theorem C5_malformed_ignored_witness:
  "\<not> well_formed (''250,512,300'' @ [LF]) \<and> \<not> well_formed (''250,,300,3'' @ [LF]) \<and>
   \<not> well_formed (''garbage'' @ [LF]) \<and>
   apply_line \<lparr>frequency = 440, axisX = 1, axisY = 2, waveform = 3\<rparr> (''250,512,300'' @ [LF])
     = \<lparr>frequency = 440, axisX = 1, axisY = 2, waveform = 3\<rparr> \<and>
   poll \<lparr>frequency = 440, axisX = 1, axisY = 2, waveform = 3\<rparr>
     [''250,512,300'' @ [LF], ''garbage'' @ [LF], ''250,,300,3'' @ [LF]]
     = \<lparr>frequency = 440, axisX = 1, axisY = 2, waveform = 3\<rparr>"
proof -
  let ?st = "\<lparr>frequency = 440, axisX = 1, axisY = 2, waveform = 3\<rparr>"
  let ?ls = "[''250,512,300'' @ [LF], ''garbage'' @ [LF], ''250,,300,3'' @ [LF]]"
  have m: "\<not> well_formed (''250,512,300'' @ [LF])" "\<not> well_formed (''250,,300,3'' @ [LF])"
    "\<not> well_formed (''garbage'' @ [LF])"
    by code_simp+
  then have "\<forall>l\<in>set ?ls. \<not> well_formed l" by simp
  then have "poll ?st ?ls = ?st"
    using C5_malformed_ignored [of ?st _ ?ls] by blast
  moreover have "apply_line ?st (''250,512,300'' @ [LF]) = ?st"
    using C5_malformed_ignored [of ?st "''250,512,300'' @ [LF]"] m(1) by blast
  ultimately show ?thesis using m by blast
qed

text \<open>
  Claim C6. Whatever the state before, the line \<open>250,512,300,3\<close> followed by a line feed
  is well formed and sets the state to frequency 250, axisX 512, axisY 300, waveform 3.
\<close>

theorem C6_parse_example:
  "well_formed (''250,512,300,3'' @ [LF]) \<and>
   apply_line st (''250,512,300,3'' @ [LF])
     = \<lparr>frequency = 250, axisX = 512, axisY = 300, waveform = 3\<rparr>"
  by code_simp

theorem C6_parse_example_witness:
  "apply_line \<lparr>frequency = 440, axisX = 1, axisY = 2, waveform = 7\<rparr> (''250,512,300,3'' @ [LF])
     = \<lparr>frequency = 250, axisX = 512, axisY = 300, waveform = 3\<rparr>"
  using C6_parse_example [of "\<lparr>frequency = 440, axisX = 1, axisY = 2, waveform = 7\<rparr>"]
  by (rule conjunct2)

text \<open>
  Claim C8. A phase that starts in its canonical domain is in it after any number of
  samples at any frequency, so at every frequency from 100 to 2000: within \<open>[0,1)\<close> for
  the phase in cycles, within \<open>[0,2\<pi>)\<close> for a phase in radians, since each increment is
  followed by the wrap, and the wrap brings any value into the domain, whatever the size of
  the increment.
\<close>

theorem C8_phase_domain:
  assumes "0 \<le> p" "p < 1" "0 \<le> q" "q < 2 * pi"
  shows "0 \<le> phase_after n f p \<and> phase_after n f p < 1 \<and>
         0 \<le> radians_after n f q \<and> radians_after n f q < 2 * pi \<and>
         0 \<le> advance f x \<and> advance f x < 1 \<and>
         0 \<le> advance_radians f x \<and> advance_radians f x < 2 * pi \<and>
         0 \<le> wrap 1 y \<and> wrap 1 y < 1 \<and> 0 \<le> wrap (2 * pi) y \<and> wrap (2 * pi) y < 2 * pi"
proof -
  have "0 \<le> wrap 1 y \<and> wrap 1 y < 1" "0 \<le> wrap (2 * pi) y \<and> wrap (2 * pi) y < 2 * pi"
    using wrap_range [of 1 y] wrap_range [of "2 * pi" y] by simp_all
  moreover
  have "0 \<le> advance f x \<and> advance f x < 1"
    unfolding advance_def using wrap_range [of 1] by simp
  moreover have "0 \<le> advance_radians f x \<and> advance_radians f x < 2 * pi"
    unfolding advance_radians_def using wrap_range [of "2 * pi"] by simp
  ultimately show ?thesis
    using phase_after_range [OF assms(1,2)] radians_after_range [OF assms(3,4)] by blast
qed

text \<open>
  From phase 0 at 2000 Hz, 23 samples pass one whole cycle and leave the phase at 19/441;
  a million samples leave it in the domain.
\<close>

theorem C8_phase_domain_witness:
  "(0 :: real) \<le> 0 \<and> (0 :: real) < 1 \<and> 0 < 2 * pi \<and>
   phase_after 23 2000 0 = 19 / 441 \<and>
   0 \<le> phase_after 1000000 2000 0 \<and> phase_after 1000000 2000 0 < 1 \<and>
   0 \<le> radians_after 1000000 2000 0 \<and> radians_after 1000000 2000 0 < 2 * pi"
proof -
  have h: "(0 :: real) \<le> 0" "(0 :: real) < 1" "(0 :: real) < 2 * pi"
    by simp_all
  have v: "phase_after 23 2000 0 = 19 / 441"
    by code_simp
  note t = C8_phase_domain [OF h(1,2) h(1,3), of 1000000 2000]
  show ?thesis using h v t by blast
qed

end
